theory Spec2Isabelle
  imports Complex_Main "HOL-Library.Word" "HOL-Library.Log_Nat"
begin

unbundle bit_operations_syntax

section \<open>Numbers, typed arrays and exceptions\<close>

text \<open>
  The recorder computes on JavaScript numbers. A finite number is a \<open>real\<close>: the
  arithmetic of the pipelines is exact, the rounding of IEEE doubles, and of a store into a
  \<open>Float32Array\<close>, is not part of it. The one result that rounding changes and that
  is stated below as a closed formula, the length of the resampler's output, is computed
  a second time in double arithmetic, in the section on the output length.
  \<open>NaN\<close> is modelled where the code can produce it (\<open>0 / 0\<close> and a read outside a
  typed array): a number that may be \<open>NaN\<close> is a \<open>real option\<close>, \<open>None\<close> being
  \<open>NaN\<close>. An \<open>Int16Array\<close> is a list of 16-bit words read as signed (\<open>sint\<close>), a
  block delivered by the capture source is a list of finite samples, and an
  \<open>ArrayBuffer\<close> is a list of bytes. The one exception the code can raise is the
  \<open>RangeError\<close> of a typed array constructor, of \<open>TypedArray.set\<close> and of a
  \<open>DataView\<close> write.
\<close>

datatype js_error = RangeError

type_synonym int16array = "16 word list"
type_synonym float32array = "real list"
type_synonym arraybuffer = "8 word list"

text \<open>Sequencing of calls that may throw: the first exception ends the function.\<close>

definition andThen :: "js_error + 'a \<Rightarrow> ('a \<Rightarrow> js_error + 'b) \<Rightarrow> js_error + 'b" where
  "andThen r f = (case r of Inl e \<Rightarrow> Inl e | Inr v \<Rightarrow> f v)"

text \<open>\<open>Math.trunc\<close>, the first step of the conversion of a number to an integer.\<close>

definition trunc :: "real \<Rightarrow> int" where
  "trunc x = (if 0 \<le> x then \<lfloor>x\<rfloor> else \<lceil>x\<rceil>)"

text \<open>
  The store \<open>output[i] = v\<close> into an \<open>Int16Array\<close>: \<open>NaN\<close> is stored as 0, a finite
  number is truncated towards zero and reduced modulo \<open>2 ^ 16\<close>.
\<close>

definition toInt16 :: "real option \<Rightarrow> 16 word" where
  "toInt16 v = (case v of None \<Rightarrow> 0 | Some x \<Rightarrow> word_of_int (trunc x))"

text \<open>
  The read \<open>input[i]\<close> of a typed array: \<open>undefined\<close> outside the array, which every
  arithmetic operation turns into \<open>NaN\<close>.
\<close>

definition js_get :: "real list \<Rightarrow> int \<Rightarrow> real option" where
  "js_get input i = (if 0 \<le> i \<and> i < int (length input) then Some (input ! nat i) else None)"

section \<open>Silence tests\<close>

subsection \<open>\<open>main.js\<close>: \<open>isSilent\<close> and \<open>isSilentFrame\<close>\<close>

fun isSilent :: "int16array \<Rightarrow> bool" where
  "isSilent [] = True"
| "isSilent (v # chunk) = (if v \<noteq> 0 then False else isSilent chunk)"

text \<open>The loop \<open>sum += v * v\<close> of \<open>isSilentFrame\<close>.\<close>

fun sumLoop :: "int16array \<Rightarrow> real \<Rightarrow> real" where
  "sumLoop [] acc = acc"
| "sumLoop (v # int16) acc = sumLoop int16 (acc + real_of_int (sint v) * real_of_int (sint v))"

text \<open>
  \<open>Math.sqrt(sum / length)\<close>. On an empty array the loop has not run, the sum is 0
  and \<open>0 / 0\<close> is \<open>NaN\<close>, whose square root is \<open>NaN\<close> again.
\<close>

definition js_rms :: "real \<Rightarrow> nat \<Rightarrow> real option" where
  "js_rms sumOfSquares n = (if n = 0 then None else Some (sqrt (sumOfSquares / real n)))"

text \<open>A comparison with \<open>NaN\<close> is false.\<close>

definition js_less :: "real option \<Rightarrow> real \<Rightarrow> bool" where
  "js_less v t = (case v of None \<Rightarrow> False | Some x \<Rightarrow> x < t)"

definition isSilentFrame :: "int16array \<Rightarrow> bool" where
  "isSilentFrame int16 = js_less (js_rms (sumLoop int16 0) (length int16)) 25"

subsection \<open>\<open>AudioRecorder\<close>: \<open>SilenceDetector\<close> on PCM16 blocks\<close>

definition SILENCE_THRESHOLD :: real where
  "SILENCE_THRESHOLD = 25"

definition isAbsolutelySilent :: "int16array \<Rightarrow> bool" where
  "isAbsolutelySilent samples = list_all (\<lambda>sample. sample = 0) samples"

definition isBelowThreshold :: "int16array \<Rightarrow> bool" where
  "isBelowThreshold samples =
     (let sumOfSquares = foldl (\<lambda>acc val. acc + real_of_int (sint val) * real_of_int (sint val)) 0 samples
      in js_less (js_rms sumOfSquares (length samples)) SILENCE_THRESHOLD)"

subsection \<open>Worker-offloaded \<open>AudioRecorder\<close>: \<open>SilenceDetector\<close> on float blocks\<close>

fun isAbsolutelySilentFloat32 :: "float32array \<Rightarrow> bool" where
  "isAbsolutelySilentFloat32 [] = True"
| "isAbsolutelySilentFloat32 (s # samples) = (if s \<noteq> 0 then False else isAbsolutelySilentFloat32 samples)"

fun sumLoopFloat32 :: "float32array \<Rightarrow> real \<Rightarrow> real" where
  "sumLoopFloat32 [] sumOfSquares = sumOfSquares"
| "sumLoopFloat32 (s # samples) sumOfSquares = sumLoopFloat32 samples (sumOfSquares + s * s)"

text \<open>
  The threshold is the literal \<open>0.001\<close> of the source, whose comment notes that
  \<open>25 / 32767\<close> is about \<open>0.00076\<close> on the float scale.
\<close>

definition isBelowThresholdFloat32 :: "float32array \<Rightarrow> bool" where
  "isBelowThresholdFloat32 samples =
     js_less (js_rms (sumLoopFloat32 samples 0) (length samples)) (1 / 1000)"

section \<open>Resampler and quantizer\<close>

text \<open>
  The allocation \<open>new Int16Array(Math.floor(length / ratio))\<close> (and the same for a
  \<open>Float32Array\<close>), in exact arithmetic and with no limit on the length that can be
  allocated. With a ratio of 0 the quotient is \<open>NaN\<close> for an empty input, which gives an
  array of length 0, and infinite otherwise, which is a \<open>RangeError\<close>; so is a negative
  length. The same allocation with the two quotients rounded to doubles, and with the
  limit, is \<open>outputLength\<close> below.
\<close>

definition allocLength :: "nat \<Rightarrow> real \<Rightarrow> js_error + nat" where
  "allocLength n ratio =
     (if ratio = 0 then (if n = 0 then Inr 0 else Inl RangeError)
      else if \<lfloor>real n / ratio\<rfloor> < 0 then Inl RangeError
      else Inr (nat \<lfloor>real n / ratio\<rfloor>))"

text \<open>
  The body of the resampling loop, shared word for word by \<open>downsampleTo16k\<close>,
  \<open>AudioProcessor.downsample\<close> and the worker's \<open>downsample\<close>: the two neighbours of
  \<open>i * ratio\<close>, the upper one clamped to the last index, interpolated by the
  fractional part.
\<close>

definition interpolate :: "float32array \<Rightarrow> real \<Rightarrow> nat \<Rightarrow> real option" where
  "interpolate input ratio i =
     (let idx = real i * ratio;
          i0 = \<lfloor>idx\<rfloor>;
          i1 = min (i0 + 1) (int (length input) - 1);
          frac = idx - real_of_int i0
      in case js_get input i0 of
           None \<Rightarrow> None
         | Some a \<Rightarrow> (case js_get input i1 of
               None \<Rightarrow> None
             | Some b \<Rightarrow> Some (a * (1 - frac) + b * frac)))"

text \<open>The store \<open>output[i] = sample * 0x7fff\<close>: the quantizer, with no clamp.\<close>

definition quantize :: "real option \<Rightarrow> 16 word" where
  "quantize sample = toInt16 (map_option (\<lambda>x. x * 32767) sample)"

subsection \<open>\<open>main.js\<close>: \<open>downsampleTo16k\<close>\<close>

definition downsampleTo16k :: "float32array \<Rightarrow> real \<Rightarrow> js_error + int16array" where
  "downsampleTo16k input rate =
     (let ratio = rate / 16000 in
      andThen (allocLength (length input) ratio)
        (\<lambda>len. Inr (map (\<lambda>i. quantize (interpolate input ratio i)) [0..<len])))"

subsection \<open>\<open>AudioRecorder\<close>: \<open>AudioProcessor.downsample\<close>\<close>

definition TARGET_SAMPLE_RATE :: int where
  "TARGET_SAMPLE_RATE = 16000"

definition AudioProcessor_downsample :: "float32array \<Rightarrow> real \<Rightarrow> js_error + int16array" where
  "AudioProcessor_downsample float32Data sourceRate =
     (let ratio = sourceRate / real_of_int TARGET_SAMPLE_RATE in
      andThen (allocLength (length float32Data) ratio)
        (\<lambda>outputLength. Inr (map (\<lambda>i. quantize (interpolate float32Data ratio i)) [0..<outputLength])))"

subsection \<open>Audio worker: \<open>downsample\<close> and \<open>float32ToInt16\<close>\<close>

text \<open>
  The worker's resampler takes the target rate and returns a \<open>Float32Array\<close>, whose
  elements may be \<open>NaN\<close>. A target rate of 0 makes the ratio infinite or \<open>NaN\<close>; the
  quotient of the length by it is then 0 or \<open>NaN\<close>, and the output has length 0.
\<close>

definition downsample :: "float32array \<Rightarrow> real \<Rightarrow> real \<Rightarrow> js_error + real option list" where
  "downsample float32Data sourceRate targetRate =
     (if targetRate = 0 then Inr []
      else
        (let ratio = sourceRate / targetRate in
         andThen (allocLength (length float32Data) ratio)
           (\<lambda>outputLength. Inr (map (\<lambda>i. interpolate float32Data ratio i) [0..<outputLength]))))"

text \<open>The worker's quantizer clamps the sample to \<open>[-1, 1]\<close> before it scales it.\<close>

definition float32ToInt16 :: "real option list \<Rightarrow> int16array" where
  "float32ToInt16 float32Data =
     map (\<lambda>v. toInt16 (map_option (\<lambda>x. max (- 1) (min 1 x) * 32767) v)) float32Data"

section \<open>Chunk accumulator\<close>

text \<open>\<open>result.set(c, offset)\<close>: a \<open>RangeError\<close> when the source does not fit.\<close>

definition typedArraySet :: "int16array \<Rightarrow> int16array \<Rightarrow> nat \<Rightarrow> js_error + int16array" where
  "typedArraySet result c offset =
     (if offset + length c \<le> length result
      then Inr (take offset result @ c @ drop (offset + length c) result)
      else Inl RangeError)"

fun mergeLoop :: "int16array list \<Rightarrow> int16array \<Rightarrow> nat \<Rightarrow> js_error + int16array" where
  "mergeLoop [] result offset = Inr result"
| "mergeLoop (c # chunks) result offset =
     andThen (typedArraySet result c offset) (\<lambda>result'. mergeLoop chunks result' (offset + length c))"

text \<open>\<open>main.js\<close>: the total is summed by \<open>forEach\<close>, the result is allocated once.\<close>

fun totalLoop :: "int16array list \<Rightarrow> nat \<Rightarrow> nat" where
  "totalLoop [] n = n"
| "totalLoop (c # chunks) n = totalLoop chunks (n + length c)"

definition mergeChunks :: "int16array list \<Rightarrow> js_error + int16array" where
  "mergeChunks chunks = mergeLoop chunks (replicate (totalLoop chunks 0) 0) 0"

text \<open>\<open>AudioProcessor.mergeChunks\<close> and the worker's: the total is a \<open>reduce\<close>.\<close>

definition AudioProcessor_mergeChunks :: "int16array list \<Rightarrow> js_error + int16array" where
  "AudioProcessor_mergeChunks chunks =
     (let totalLength = foldl (\<lambda>acc chunk. acc + length chunk) 0 chunks
      in mergeLoop chunks (replicate totalLength 0) 0)"

section \<open>WAV encoder\<close>

subsection \<open>\<open>DataView\<close> writes\<close>

text \<open>
  A write outside the buffer is a \<open>RangeError\<close>. The value is reduced modulo the width of
  the field, so the signed and the unsigned write of a width store the same bytes.
\<close>

definition setUint8 :: "arraybuffer \<Rightarrow> nat \<Rightarrow> int \<Rightarrow> js_error + arraybuffer" where
  "setUint8 view byteOffset v =
     (if byteOffset + 1 \<le> length view then Inr (view[byteOffset := word_of_int v])
      else Inl RangeError)"

definition setUint16 :: "arraybuffer \<Rightarrow> nat \<Rightarrow> int \<Rightarrow> bool \<Rightarrow> js_error + arraybuffer" where
  "setUint16 view byteOffset v littleEndian =
     (if byteOffset + 2 \<le> length view then
        Inr (if littleEndian
             then view[byteOffset := word_of_int v, byteOffset + 1 := word_of_int (v div 256)]
             else view[byteOffset := word_of_int (v div 256), byteOffset + 1 := word_of_int v])
      else Inl RangeError)"

definition setInt16 :: "arraybuffer \<Rightarrow> nat \<Rightarrow> int \<Rightarrow> bool \<Rightarrow> js_error + arraybuffer" where
  "setInt16 view byteOffset v littleEndian =
     (if byteOffset + 2 \<le> length view then
        Inr (if littleEndian
             then view[byteOffset := word_of_int v, byteOffset + 1 := word_of_int (v div 256)]
             else view[byteOffset := word_of_int (v div 256), byteOffset + 1 := word_of_int v])
      else Inl RangeError)"

definition setUint32 :: "arraybuffer \<Rightarrow> nat \<Rightarrow> int \<Rightarrow> bool \<Rightarrow> js_error + arraybuffer" where
  "setUint32 view byteOffset v littleEndian =
     (if byteOffset + 4 \<le> length view then
        Inr (if littleEndian
             then view[byteOffset := word_of_int v,
                       byteOffset + 1 := word_of_int (v div 256),
                       byteOffset + 2 := word_of_int (v div 65536),
                       byteOffset + 3 := word_of_int (v div 16777216)]
             else view[byteOffset := word_of_int (v div 16777216),
                       byteOffset + 1 := word_of_int (v div 65536),
                       byteOffset + 2 := word_of_int (v div 256),
                       byteOffset + 3 := word_of_int v])
      else Inl RangeError)"

subsection \<open>\<open>main.js\<close>: \<open>write\<close> and \<open>buildWav\<close>\<close>

text \<open>
  The helper \<open>write\<close> of \<open>main.js\<close> is \<open>WavEncoder.writeString\<close> in the other variants,
  with the same body; the model uses the second name for both.
\<close>

fun writeString :: "arraybuffer \<Rightarrow> nat \<Rightarrow> string \<Rightarrow> js_error + arraybuffer" where
  "writeString view offset [] = Inr view"
| "writeString view offset (c # text) =
     andThen (setUint8 view offset (of_char c)) (\<lambda>view'. writeString view' (offset + 1) text)"

fun writeSamples :: "arraybuffer \<Rightarrow> nat \<Rightarrow> int16array \<Rightarrow> js_error + arraybuffer" where
  "writeSamples view offset [] = Inr view"
| "writeSamples view offset (sample # samples) =
     andThen (setInt16 view offset (sint sample) True)
       (\<lambda>view'. writeSamples view' (offset + 2) samples)"

definition buildWav :: "int16array \<Rightarrow> js_error + arraybuffer" where
  "buildWav samples =
     (let buffer = replicate (44 + length samples * 2) 0 in
      andThen (writeString buffer 0 ''RIFF'') (\<lambda>view.
      andThen (setUint32 view 4 (36 + int (length samples) * 2) True) (\<lambda>view.
      andThen (writeString view 8 ''WAVE'') (\<lambda>view.
      andThen (writeString view 12 ''fmt '') (\<lambda>view.
      andThen (setUint32 view 16 16 True) (\<lambda>view.
      andThen (setUint16 view 20 1 True) (\<lambda>view.
      andThen (setUint16 view 22 1 True) (\<lambda>view.
      andThen (setUint32 view 24 16000 True) (\<lambda>view.
      andThen (setUint32 view 28 (16000 * 2) True) (\<lambda>view.
      andThen (setUint16 view 32 2 True) (\<lambda>view.
      andThen (setUint16 view 34 16 True) (\<lambda>view.
      andThen (writeString view 36 ''data'') (\<lambda>view.
      andThen (setUint32 view 40 (int (length samples) * 2) True) (\<lambda>view.
      writeSamples view 44 samples))))))))))))))"

subsection \<open>\<open>AudioRecorder\<close> and audio worker: \<open>WavEncoder.encode\<close>\<close>

definition CHANNELS :: int where
  "CHANNELS = 1"

definition BIT_DEPTH :: int where
  "BIT_DEPTH = 16"

definition encode :: "int16array \<Rightarrow> js_error + arraybuffer" where
  "encode samples =
     (let headerSize = 44;
          dataSize = length samples * 2;
          buffer = replicate (headerSize + dataSize) 0 in
      andThen (writeString buffer 0 ''RIFF'') (\<lambda>view.
      andThen (setUint32 view 4 (36 + int dataSize) True) (\<lambda>view.
      andThen (writeString view 8 ''WAVE'') (\<lambda>view.
      andThen (writeString view 12 ''fmt '') (\<lambda>view.
      andThen (setUint32 view 16 16 True) (\<lambda>view.
      andThen (setUint16 view 20 1 True) (\<lambda>view.
      andThen (setUint16 view 22 CHANNELS True) (\<lambda>view.
      andThen (setUint32 view 24 TARGET_SAMPLE_RATE True) (\<lambda>view.
      andThen (setUint32 view 28 (TARGET_SAMPLE_RATE * 2) True) (\<lambda>view.
      andThen (setUint16 view 32 2 True) (\<lambda>view.
      andThen (setUint16 view 34 BIT_DEPTH True) (\<lambda>view.
      andThen (writeString view 36 ''data'') (\<lambda>view.
      andThen (setUint32 view 40 (int dataSize) True) (\<lambda>view.
      writeSamples view headerSize samples))))))))))))))"

subsection \<open>Reading a container back\<close>

text \<open>
  Specification side. The repository writes WAV containers and never reads one; the
  reader below is the one that the layout and the round-trip property of the
  specification speak of. It reads a header field as a little-endian unsigned integer,
  a tag as the character codes of its letters, and the bytes from offset 44 on as
  consecutive little-endian signed 16-bit samples.
\<close>

definition leValue :: "arraybuffer \<Rightarrow> nat" where
  "leValue bytes = foldr (\<lambda>b acc. unat b + 256 * acc) bytes 0"

definition field :: "arraybuffer \<Rightarrow> nat \<Rightarrow> nat \<Rightarrow> arraybuffer" where
  "field buffer offset n = take n (drop offset buffer)"

definition ascii :: "string \<Rightarrow> arraybuffer" where
  "ascii str = map of_char str"

fun decodeSamples :: "arraybuffer \<Rightarrow> int16array" where
  "decodeSamples (lo # hi # bytes) = word_of_nat (unat lo + 256 * unat hi) # decodeSamples bytes"
| "decodeSamples bytes = []"

record wavInfo =
  wavSampleRate :: nat
  wavChannels :: nat
  wavBitDepth :: nat
  wavDataSize :: nat
  wavSamples :: int16array

definition decode :: "arraybuffer \<Rightarrow> wavInfo" where
  "decode buffer =
     \<lparr>wavSampleRate = leValue (field buffer 24 4),
      wavChannels = leValue (field buffer 22 2),
      wavBitDepth = leValue (field buffer 34 2),
      wavDataSize = leValue (field buffer 40 4),
      wavSamples = decodeSamples (drop 44 buffer)\<rparr>"

section \<open>Capture pipelines\<close>

text \<open>
  Each pipeline is the handler that the capture source calls with one block, as it runs
  while a recording is on (the audio context is set, so the guard at the top of the
  handler does not return). The state it changes is the list of accepted chunks. An
  exception ends the handler where it is thrown, before the chunk is pushed, and the
  next block is delivered all the same.
\<close>

definition deliver :: "('s \<Rightarrow> 'b \<Rightarrow> js_error + 's) \<Rightarrow> 's \<Rightarrow> 'b \<Rightarrow> 's" where
  "deliver handler st block = (case handler st block of Inl e \<Rightarrow> st | Inr st' \<Rightarrow> st')"

subsection \<open>\<open>main.js\<close>: the worklet pipeline\<close>

definition onmessage :: "bool \<Rightarrow> real \<Rightarrow> int16array list \<Rightarrow> float32array \<Rightarrow> js_error + int16array list" where
  "onmessage removeSilence sampleRate chunks float32 =
     andThen (downsampleTo16k float32 sampleRate)
       (\<lambda>pcm16.
          if removeSilence \<and> length chunks = 0 \<and> isSilent pcm16 then Inr chunks
          else if isSilentFrame pcm16 then Inr chunks
          else Inr (chunks @ [pcm16]))"

text \<open>
  A session: \<open>chunks = []\<close> at the start, then one call for each block. The first variant
  of \<open>main-scriptprocessor.js\<close> has the same handler, on \<open>onaudioprocess\<close>.
\<close>

definition workletSession :: "bool \<Rightarrow> real \<Rightarrow> float32array list \<Rightarrow> int16array list" where
  "workletSession removeSilence sampleRate blocks =
     foldl (deliver (onmessage removeSilence sampleRate)) [] blocks"

text \<open>The stop branch of \<open>toggleRecording\<close>: merge, then encode.\<close>

definition stopRecording :: "int16array list \<Rightarrow> js_error + arraybuffer" where
  "stopRecording chunks = andThen (mergeChunks chunks) buildWav"

subsection \<open>\<open>AudioRecorder\<close>: the script-processor pipeline\<close>

definition onaudioprocess :: "bool \<Rightarrow> real \<Rightarrow> int16array list \<Rightarrow> float32array \<Rightarrow> js_error + int16array list" where
  "onaudioprocess shouldRemoveInitialSilence sampleRate recordedChunks inputData =
     andThen (AudioProcessor_downsample inputData sampleRate)
       (\<lambda>pcm16.
          if shouldRemoveInitialSilence \<and> length recordedChunks = 0
             \<and> (isAbsolutelySilent pcm16 \<or> isBelowThreshold pcm16)
          then Inr recordedChunks
          else Inr (recordedChunks @ [pcm16]))"

definition recorderSession :: "bool \<Rightarrow> real \<Rightarrow> float32array list \<Rightarrow> int16array list" where
  "recorderSession shouldRemoveInitialSilence sampleRate blocks =
     foldl (deliver (onaudioprocess shouldRemoveInitialSilence sampleRate)) [] blocks"

definition RecordingController_stop :: "int16array list \<Rightarrow> js_error + arraybuffer" where
  "RecordingController_stop recordedChunks = andThen (AudioProcessor_mergeChunks recordedChunks) encode"

subsection \<open>\<open>AudioRecorder\<close> with the audio worker: the offloaded pipeline\<close>

text \<open>
  The main thread tests the float block and posts it to the worker; the worker
  resamples, quantizes and stores it. Messages arrive in the order they were posted.
\<close>

record worker =
  recordedChunks :: "int16array list"
  sourceSampleRate :: real
  needsDownsampling :: bool

text \<open>The message \<open>init\<close>: \<open>data.sourceSampleRate || 16000\<close> replaces a rate of 0.\<close>

definition workerInit :: "real \<Rightarrow> worker" where
  "workerInit rate =
     (let r = (if rate = 0 then 16000 else rate) in
      \<lparr>recordedChunks = [], sourceSampleRate = r,
       needsDownsampling = (r \<noteq> real_of_int TARGET_SAMPLE_RATE)\<rparr>)"

text \<open>The message \<open>process\<close>.\<close>

definition workerProcess :: "worker \<Rightarrow> float32array \<Rightarrow> js_error + worker" where
  "workerProcess w buffer =
     andThen (if needsDownsampling w
              then downsample buffer (sourceSampleRate w) (real_of_int TARGET_SAMPLE_RATE)
              else Inr (map Some buffer))
       (\<lambda>float32Data. Inr (w\<lparr>recordedChunks := recordedChunks w @ [float32ToInt16 float32Data]\<rparr>))"

text \<open>
  The handler of the main thread: the new value of \<open>hasRecordedAudio\<close>, and the buffer
  posted to the worker, if any.
\<close>

definition onaudioprocessOffloaded :: "bool \<Rightarrow> bool \<Rightarrow> float32array \<Rightarrow> bool \<times> float32array option" where
  "onaudioprocessOffloaded shouldRemoveInitialSilence hasRecordedAudio inputData =
     (if shouldRemoveInitialSilence \<and> \<not> hasRecordedAudio then
        (if isAbsolutelySilentFloat32 inputData \<or> isBelowThresholdFloat32 inputData
         then (hasRecordedAudio, None)
         else (True, Some inputData))
      else (hasRecordedAudio, Some inputData))"

definition offloadedStep :: "bool \<Rightarrow> bool \<times> worker \<Rightarrow> float32array \<Rightarrow> bool \<times> worker" where
  "offloadedStep shouldRemoveInitialSilence st inputData =
     (case onaudioprocessOffloaded shouldRemoveInitialSilence (fst st) inputData of
        (hasRecordedAudio, None) \<Rightarrow> (hasRecordedAudio, snd st)
      | (hasRecordedAudio, Some buffer) \<Rightarrow> (hasRecordedAudio, deliver workerProcess (snd st) buffer))"

definition offloadedSession :: "bool \<Rightarrow> real \<Rightarrow> float32array list \<Rightarrow> int16array list" where
  "offloadedSession shouldRemoveInitialSilence sampleRate blocks =
     recordedChunks (snd (foldl (offloadedStep shouldRemoveInitialSilence) (False, workerInit sampleRate) blocks))"

text \<open>The message \<open>finish\<close>.\<close>

definition workerFinish :: "worker \<Rightarrow> js_error + arraybuffer" where
  "workerFinish w = andThen (AudioProcessor_mergeChunks (recordedChunks w)) encode"

section \<open>The output length in double arithmetic\<close>

text \<open>
  The exponent of a positive number: the \<open>e\<close> with \<open>2\<^sup>e \<le> x < 2\<^sup>e\<^sup>+\<^sup>1\<close>, computed from the bit
  length of the integer part of \<open>x\<close>, or of \<open>1 / x\<close> below 1.
\<close>

definition binade :: "real \<Rightarrow> int" where
  "binade x =
     (if 1 \<le> x then int (floorlog 2 (nat \<lfloor>x\<rfloor>)) - 1
      else - int (floorlog 2 (nat (\<lceil>1 / x\<rceil> - 1))))"

text \<open>Rounding to the nearest integer, a tie going to the even one.\<close>

definition roundEven :: "real \<Rightarrow> int" where
  "roundEven y =
     (let f = \<lfloor>y\<rfloor>; d = y - real_of_int f
      in if d < 1 / 2 then f else if 1 / 2 < d then f + 1 else if even f then f else f + 1)"

text \<open>
  Rounding to the nearest binary64 number: 53 significant bits, the spacing of the
  numbers being \<open>2\<^sup>e\<^sup>-\<^sup>5\<^sup>2\<close> in the binade of exponent \<open>e\<close>, and \<open>2\<^sup>-\<^sup>1\<^sup>0\<^sup>7\<^sup>4\<close> below
  \<open>2\<^sup>-\<^sup>1\<^sup>0\<^sup>2\<^sup>2\<close> (gradual underflow).
\<close>

definition roundBinary64 :: "real \<Rightarrow> real" where
  "roundBinary64 x =
     (if x = 0 then 0
      else (let u = 2 powi (max (binade \<bar>x\<bar>) (- 1022) - 52)
            in real_of_int (roundEven (x / u)) * u))"

text \<open>
  A number of the language: finite, infinite (of either sign, which no use below tells
  apart) or \<open>NaN\<close>. The sign of a zero is not kept.
\<close>

datatype jsnumber = Num real | Infinity | NaN

text \<open>The result of an operation whose exact value is \<open>x\<close>: rounded, infinite on overflow.\<close>

definition toDouble :: "real \<Rightarrow> jsnumber" where
  "toDouble x = (let r = roundBinary64 x in if 2 ^ 1024 \<le> \<bar>r\<bar> then Infinity else Num r)"

text \<open>The operator \<open>/\<close>.\<close>

fun js_divide :: "jsnumber \<Rightarrow> jsnumber \<Rightarrow> jsnumber" where
  "js_divide NaN b = NaN"
| "js_divide a NaN = NaN"
| "js_divide Infinity Infinity = NaN"
| "js_divide Infinity (Num b) = Infinity"
| "js_divide (Num a) Infinity = Num 0"
| "js_divide (Num a) (Num b) =
     (if b = 0 then (if a = 0 then NaN else Infinity) else toDouble (a / b))"

text \<open>\<open>Math.floor\<close>.\<close>

fun js_floor :: "jsnumber \<Rightarrow> jsnumber" where
  "js_floor (Num x) = Num (real_of_int \<lfloor>x\<rfloor>)"
| "js_floor Infinity = Infinity"
| "js_floor NaN = NaN"

text \<open>
  The length of the array that \<open>new Int16Array(len)\<close> or \<open>new Float32Array(len)\<close>
  returns: \<open>NaN\<close> counts as 0; an infinite or negative length, and a length that the
  engine cannot allocate, is a \<open>RangeError\<close>. The largest length the engine allocates
  is not in the source: it is the parameter \<open>maxLength\<close> (at most \<open>2\<^sup>5\<^sup>3 - 1\<close> in every
  engine).
\<close>

fun newTypedArray :: "int \<Rightarrow> jsnumber \<Rightarrow> js_error + nat" where
  "newTypedArray maxLength NaN = Inr 0"
| "newTypedArray maxLength Infinity = Inl RangeError"
| "newTypedArray maxLength (Num len) =
     (if len < 0 \<or> real_of_int maxLength < len then Inl RangeError else Inr (nat \<lfloor>len\<rfloor>))"

text \<open>
  The length of the output of the resampler, as the three variants compute it:
  \<open>ratio = sourceRate / targetRate\<close>, then \<open>Math.floor(input.length / ratio)\<close>, then the
  allocation. The target rate of \<open>downsampleTo16k\<close> and of \<open>AudioProcessor.downsample\<close>
  is 16000.
\<close>

definition outputLength :: "int \<Rightarrow> nat \<Rightarrow> real \<Rightarrow> real \<Rightarrow> js_error + nat" where
  "outputLength maxLength n sourceRate targetRate =
     (let ratio = js_divide (Num sourceRate) (Num targetRate)
      in newTypedArray maxLength (js_floor (js_divide (Num (real n)) ratio)))"

section \<open>Notions used in the statements\<close>

text \<open>
  Specification side. The root mean square of a block, \<open>sqrt(sum(sample\<^sup>2)/count)\<close>, as
  the specification writes it. The code computes it with a loop or a \<open>reduce\<close>; the
  theorems below compare the two.
\<close>

definition rms :: "real list \<Rightarrow> real" where
  "rms block = sqrt ((\<Sum>sample\<leftarrow>block. sample\<^sup>2) / real (length block))"

text \<open>The samples of a PCM16 block as numbers.\<close>

definition pcmValues :: "int16array \<Rightarrow> real list" where
  "pcmValues int16 = map (\<lambda>v. real_of_int (sint v)) int16"

text \<open>The little-endian bytes of a 16-bit and of a 32-bit field.\<close>

definition bytes16 :: "int \<Rightarrow> arraybuffer" where
  "bytes16 v = [word_of_int v, word_of_int (v div 256)]"

definition bytes32 :: "int \<Rightarrow> arraybuffer" where
  "bytes32 v =
     [word_of_int v, word_of_int (v div 256), word_of_int (v div 65536), word_of_int (v div 16777216)]"

text \<open>A buffer of \<open>byteLength\<close> bytes whose first bytes are written and whose rest is still 0.\<close>

definition written :: "arraybuffer \<Rightarrow> nat \<Rightarrow> arraybuffer" where
  "written pre byteLength = pre @ replicate (byteLength - length pre) 0"

text \<open>The 44 bytes of the header of a container of \<open>n\<close> samples.\<close>

definition wavHeader :: "nat \<Rightarrow> arraybuffer" where
  "wavHeader n =
     map (\<lambda>c. word_of_int (of_char c)) ''RIFF'' @ bytes32 (36 + int n * 2) @
     map (\<lambda>c. word_of_int (of_char c)) ''WAVE'' @
     map (\<lambda>c. word_of_int (of_char c)) ''fmt '' @ bytes32 16 @ bytes16 1 @ bytes16 1 @
     bytes32 16000 @ bytes32 32000 @ bytes16 2 @ bytes16 16 @
     map (\<lambda>c. word_of_int (of_char c)) ''data'' @ bytes32 (int n * 2)"

text \<open>
  The chunk that a pipeline computes for a block: what the resampler returns (nothing
  when it throws), and what the worker stores.
\<close>

definition pcm16Of :: "real \<Rightarrow> float32array \<Rightarrow> int16array" where
  "pcm16Of sampleRate block =
     (case downsampleTo16k block sampleRate of Inl e \<Rightarrow> [] | Inr pcm16 \<Rightarrow> pcm16)"

definition workerChunk :: "worker \<Rightarrow> float32array \<Rightarrow> int16array" where
  "workerChunk w block =
     (case workerProcess w block of Inl e \<Rightarrow> [] | Inr w' \<Rightarrow> last (recordedChunks w'))"

section \<open>Properties\<close>

subsection \<open>Exceptions\<close>

lemma andThen_Inr [simp]: "andThen (Inr v) f = f v"
  by (simp add: andThen_def)

lemma andThen_Inl [simp]: "andThen (Inl e) f = Inl e"
  by (simp add: andThen_def)

subsection \<open>Silence tests\<close>

lemma sumLoop_eq: "sumLoop xs s = s + (\<Sum>v\<leftarrow>xs. (real_of_int (sint v))\<^sup>2)"
  by (induction xs arbitrary: s) (simp_all add: power2_eq_square)

lemma sumLoopFloat32_eq: "sumLoopFloat32 xs s = s + (\<Sum>x\<leftarrow>xs. x\<^sup>2)"
  by (induction xs arbitrary: s) (simp_all add: power2_eq_square)

lemma foldl_squares_eq:
  "foldl (\<lambda>acc val. acc + real_of_int (sint val) * real_of_int (sint val)) s xs
     = s + (\<Sum>v\<leftarrow>xs. (real_of_int (sint v))\<^sup>2)"
  by (induction xs arbitrary: s) (simp_all add: power2_eq_square)

lemma isSilentFrame_rms:
  "isSilentFrame int16 \<longleftrightarrow> int16 \<noteq> [] \<and> rms (pcmValues int16) < 25"
  by (simp add: isSilentFrame_def js_less_def js_rms_def sumLoop_eq rms_def pcmValues_def comp_def)

lemma isBelowThreshold_rms:
  "isBelowThreshold samples \<longleftrightarrow> samples \<noteq> [] \<and> rms (pcmValues samples) < 25"
  unfolding isBelowThreshold_def Let_def foldl_squares_eq
  by (simp add: SILENCE_THRESHOLD_def js_less_def js_rms_def rms_def pcmValues_def comp_def)

lemma isBelowThresholdFloat32_rms:
  "isBelowThresholdFloat32 samples \<longleftrightarrow> samples \<noteq> [] \<and> rms samples < 1 / 1000"
  by (simp add: isBelowThresholdFloat32_def js_less_def js_rms_def sumLoopFloat32_eq rms_def)

lemma sqrt_less_25: "sqrt x < 25 \<longleftrightarrow> x < 625"
proof -
  have "sqrt 625 = sqrt (25\<^sup>2)" by simp
  then have "sqrt 625 = 25" by simp
  then show ?thesis using real_sqrt_less_iff [of x 625] by simp
qed

text \<open>The RMS test of \<open>main.js\<close> in integer arithmetic, for evaluation.\<close>

lemma isSilentFrame_iff:
  "isSilentFrame int16 \<longleftrightarrow>
     int16 \<noteq> [] \<and> (\<Sum>v\<leftarrow>int16. (sint v)\<^sup>2) < 625 * int (length int16)"
proof (cases "int16 = []")
  case True
  then show ?thesis by (simp add: isSilentFrame_def js_less_def js_rms_def)
next
  case False
  then have n: "0 < real (length int16)" by simp
  have "(\<Sum>v\<leftarrow>int16. (real_of_int (sint v))\<^sup>2) = real_of_int (\<Sum>v\<leftarrow>int16. (sint v)\<^sup>2)"
    by (induction int16) simp_all
  then have "isSilentFrame int16 \<longleftrightarrow>
      real_of_int (\<Sum>v\<leftarrow>int16. (sint v)\<^sup>2) < 625 * real (length int16)"
    using False n
    by (simp add: isSilentFrame_def js_less_def js_rms_def sumLoop_eq sqrt_less_25 pos_divide_less_eq)
  also have "\<dots> \<longleftrightarrow> (\<Sum>v\<leftarrow>int16. (sint v)\<^sup>2) < 625 * int (length int16)"
  proof -
    have "625 * real (length int16) = real_of_int (625 * int (length int16))" by simp
    then show ?thesis by (simp only: of_int_less_iff)
  qed
  finally show ?thesis using False by simp
qed

text \<open>
  C10. The two silence tests disagree on the empty block: the exact-zero test accepts it
  vacuously, the RMS test divides 0 by the length 0, gets \<open>NaN\<close>, and \<open>NaN < 25\<close> is
  false, so the empty block is not silent for it. This holds for the pair of \<open>main.js\<close>
  and for the two pairs of \<open>SilenceDetector\<close>, on PCM16 and on float blocks.
\<close>

theorem silence_tests_disagree_on_empty:
  "isSilent [] \<and> \<not> isSilentFrame [] \<and>
   isAbsolutelySilent [] \<and> \<not> isBelowThreshold [] \<and>
   isAbsolutelySilentFloat32 [] \<and> \<not> isBelowThresholdFloat32 []"
  by (simp add: isSilentFrame_def isAbsolutelySilent_def isBelowThreshold_def
      isBelowThresholdFloat32_def js_rms_def js_less_def)

text \<open>
  C4, as stated: the float-scale test is silent exactly below \<open>25 / 32767\<close>. It is not:
  the one-sample block \<open>[2\<^sup>-\<^sup>1\<^sup>0]\<close> has the RMS \<open>1 / 1024\<close>, above \<open>25 / 32767\<close>, and
  \<open>isBelowThresholdFloat32\<close> classifies it as silent, because the code compares with
  \<open>0.001\<close>.
\<close>

theorem float_threshold_counterexample:
  "isBelowThresholdFloat32 [1 / 1024] \<and> \<not> rms [1 / 1024] < 25 / 32767"
  by (simp add: isBelowThresholdFloat32_rms rms_def)

text \<open>
  C4, amended. A non-empty block is classified silent by the RMS test exactly when its
  root mean square is strictly below the threshold: 25 for the PCM16 tests
  (\<open>isSilentFrame\<close>, \<open>SilenceDetector.isBelowThreshold\<close>) and \<open>0.001\<close> for the float test
  (\<open>isBelowThresholdFloat32\<close>). The comparison is strict, so a block whose RMS equals
  the threshold is not silent; an empty block, whose RMS is \<open>NaN\<close>, is not silent either.
\<close>

theorem rms_silence_threshold:
  "(isSilentFrame int16 \<longleftrightarrow> int16 \<noteq> [] \<and> rms (pcmValues int16) < 25) \<and>
   (isBelowThreshold int16 \<longleftrightarrow> int16 \<noteq> [] \<and> rms (pcmValues int16) < 25) \<and>
   (isBelowThresholdFloat32 samples \<longleftrightarrow> samples \<noteq> [] \<and> rms samples < 1 / 1000)"
  by (simp only: isSilentFrame_rms isBelowThreshold_rms isBelowThresholdFloat32_rms)

subsection \<open>Resampler and quantizer\<close>

lemma allocLength_pos: "0 < ratio \<Longrightarrow> allocLength n ratio = Inr (nat \<lfloor>real n / ratio\<rfloor>)"
  by (simp add: allocLength_def not_less)

lemma downsampleTo16k_pos:
  assumes "0 < rate"
  shows "downsampleTo16k input rate =
     Inr (map (\<lambda>i. quantize (interpolate input (rate / 16000) i))
            [0..<nat \<lfloor>real (length input) * 16000 / rate\<rfloor>])"
  using assms by (simp add: downsampleTo16k_def allocLength_pos Let_def)

lemma AudioProcessor_downsample_eq: "AudioProcessor_downsample input rate = downsampleTo16k input rate"
  by (simp add: AudioProcessor_downsample_def downsampleTo16k_def TARGET_SAMPLE_RATE_def)

lemma downsample_pos:
  assumes "0 < r" "0 < t"
  shows "downsample x r t =
     Inr (map (\<lambda>i. interpolate x (r / t) i) [0..<nat \<lfloor>real (length x) * t / r\<rfloor>])"
  using assms by (simp add: downsample_def allocLength_pos Let_def)

lemma interpolate_unity:
  assumes "i < length x"
  shows "interpolate x 1 i = Some (x ! i)"
  using assms by (auto simp add: interpolate_def js_get_def Let_def min_def)

lemma quantize_Some: "quantize (Some s) = word_of_int (trunc (s * 32767))"
  by (simp add: quantize_def toInt16_def)

lemma trunc_bounds: "\<bar>x\<bar> \<le> real_of_int k \<Longrightarrow> \<bar>trunc x\<bar> \<le> k"
  unfolding trunc_def by (auto simp: abs_le_iff; linarith)

lemma sint_quantize_in_range:
  assumes "- 1 \<le> s" "s \<le> 1"
  shows "sint (quantize (Some s)) = trunc (s * 32767)"
proof -
  from assms have "\<bar>s * 32767\<bar> \<le> real_of_int 32767" by (simp add: abs_le_iff)
  then have "\<bar>trunc (s * 32767)\<bar> \<le> 32767" by (rule trunc_bounds)
  then show ?thesis
    by (simp add: quantize_Some sint_sbintrunc' signed_take_bit_int_eq_self abs_le_iff)
qed

lemma sint_quantize_wraps:
  "sint (quantize (Some s)) = (trunc (s * 32767) + 32768) mod 65536 - 32768"
  by (simp add: quantize_Some sint_sbintrunc' signed_take_bit_eq_take_bit_shift take_bit_eq_mod)

lemma float32ToInt16_single: "float32ToInt16 [Some s] = [quantize (Some (max (- 1) (min 1 s)))]"
  by (simp add: float32ToInt16_def quantize_def)

lemma map_interpolate_unity: "map (interpolate x 1) [0..<length x] = map Some x"
  by (rule nth_equalityI) (simp_all add: interpolate_unity)

text \<open>
  C3, as stated: every quantizer multiplies and truncates with no clamp, and a sample
  outside \<open>[-1, 1]\<close> wraps modulo \<open>2 ^ 16\<close>. The worker's \<open>float32ToInt16\<close> does not: the
  sample 2 is clamped to 1 and stored as 32767, not as the wrapped value of
  \<open>trunc (2 * 32767)\<close>, which is \<open>-2\<close>.
\<close>

theorem quantizer_counterexample:
  "float32ToInt16 [Some 2] = [32767] \<and> float32ToInt16 [Some 2] \<noteq> [word_of_int (trunc (2 * 32767))]"
  by (simp add: float32ToInt16_def toInt16_def trunc_def)

text \<open>
  C3, amended. The quantizer inside \<open>downsampleTo16k\<close> and \<open>AudioProcessor.downsample\<close>
  multiplies by 32767 and truncates, with no clamp: the stored sample is the truncated
  product reduced modulo \<open>2 ^ 16\<close> into the int16 range, which is the truncated product
  itself for a sample in \<open>[-1, 1]\<close>. The worker's \<open>float32ToInt16\<close> clamps the sample to
  \<open>[-1, 1]\<close> first: it agrees with the other quantizer on \<open>[-1, 1]\<close> and saturates at
  32767 and -32767 outside.
\<close>

theorem quantizer_wraps_or_clamps:
  "sint (quantize (Some s)) = (trunc (s * 32767) + 32768) mod 65536 - 32768 \<and>
   (- 1 \<le> s \<and> s \<le> 1 \<longrightarrow> sint (quantize (Some s)) = trunc (s * 32767)) \<and>
   (- 1 \<le> s \<and> s \<le> 1 \<longrightarrow> float32ToInt16 [Some s] = [quantize (Some s)]) \<and>
   (1 \<le> s \<longrightarrow> float32ToInt16 [Some s] = [32767]) \<and>
   (s \<le> - 1 \<longrightarrow> float32ToInt16 [Some s] = [- 32767])"
proof (intro conjI impI)
  show "sint (quantize (Some s)) = (trunc (s * 32767) + 32768) mod 65536 - 32768"
    by (rule sint_quantize_wraps)
next
  assume "- 1 \<le> s \<and> s \<le> 1"
  then show "sint (quantize (Some s)) = trunc (s * 32767)"
    by (simp add: sint_quantize_in_range)
next
  assume "- 1 \<le> s \<and> s \<le> 1"
  then have "max (- 1) (min 1 s) = s" by simp
  then show "float32ToInt16 [Some s] = [quantize (Some s)]"
    by (simp add: float32ToInt16_single)
next
  assume "1 \<le> s"
  then have "max (- 1) (min 1 s) = 1" by simp
  then show "float32ToInt16 [Some s] = [32767]"
    by (simp add: float32ToInt16_single quantize_Some trunc_def)
next
  assume "s \<le> - 1"
  then have "max (- 1) (min 1 s) = - 1" by simp
  then show "float32ToInt16 [Some s] = [- 32767]"
    by (simp add: float32ToInt16_single quantize_Some trunc_def)
qed

theorem quantizer_wraps_or_clamps_witness:
  "sint (quantize (Some (1 / 2))) = 16383 \<and>
   float32ToInt16 [Some (1 / 2)] = [quantize (Some (1 / 2))] \<and>
   sint (quantize (Some 2)) = - 2 \<and>
   float32ToInt16 [Some 2] = [32767] \<and>
   float32ToInt16 [Some (- 2)] = [- 32767]"
  using quantizer_wraps_or_clamps [of "1 / 2"] quantizer_wraps_or_clamps [of 2]
    quantizer_wraps_or_clamps [of "- 2"]
  by (simp add: trunc_def)

subsection \<open>The output length in double arithmetic\<close>





















text \<open>At a whole ratio the length in exact arithmetic, used by the pipelines, is the same.\<close>

lemma allocLength_whole:
  fixes n k :: nat
  assumes "0 < k" "t \<noteq> 0"
  shows "allocLength n (real k * t / t) = Inr (n div k)"
proof -
  have "\<lfloor>real n / real k\<rfloor> = int (n div k)" by (simp add: floor_divide_of_nat_eq)
  then show ?thesis using assms by (simp add: allocLength_pos)
qed

subsection \<open>Unity ratio\<close>

text \<open>
  C8. At unity ratio the resampler is the identity: for a positive rate \<open>r\<close>, the
  worker's \<open>downsample x r r\<close> returns the samples of \<open>x\<close>, each unchanged; and
  \<open>downsampleTo16k\<close> at the rate 16000 stores each sample of \<open>x\<close> quantized, with no
  interpolation between samples.
\<close>

theorem resample_unity_identity:
  assumes "0 < r"
  shows "downsample x r r = Inr (map Some x) \<and>
         downsampleTo16k x 16000 = Inr (map (\<lambda>sample. quantize (Some sample)) x)"
proof
  show "downsample x r r = Inr (map Some x)"
    using assms by (simp add: downsample_pos map_interpolate_unity)
  have "map (\<lambda>i. quantize (interpolate x 1 i)) [0..<length x] = map (\<lambda>sample. quantize (Some sample)) x"
    by (rule nth_equalityI) (simp_all add: interpolate_unity)
  then show "downsampleTo16k x 16000 = Inr (map (\<lambda>sample. quantize (Some sample)) x)"
    by (simp add: downsampleTo16k_pos)
qed

theorem resample_unity_identity_witness:
  "(0::real) < 48000 \<and> downsample [1 / 2, - 1 / 4] 48000 48000 = Inr [Some (1 / 2), Some (- 1 / 4)]"
  using resample_unity_identity [of 48000 "[1 / 2, - 1 / 4]"] by simp

subsection \<open>Chunk accumulator\<close>

lemma totalLoop_eq: "totalLoop chunks n = n + length (concat chunks)"
  by (induction chunks arbitrary: n) simp_all

lemma foldl_lengths_eq: "foldl (\<lambda>acc chunk. acc + length chunk) n chunks = n + length (concat chunks)"
  by (induction chunks arbitrary: n) simp_all

lemma mergeLoop_fills:
  "mergeLoop chunks (pre @ replicate (length (concat chunks) + m) 0) (length pre)
     = Inr (pre @ concat chunks @ replicate m 0)"
proof (induction chunks arbitrary: pre)
  case Nil
  then show ?case by simp
next
  case (Cons c chunks)
  have set: "typedArraySet (pre @ replicate (length (concat (c # chunks)) + m) 0) c (length pre)
      = Inr ((pre @ c) @ replicate (length (concat chunks) + m) 0)"
    by (simp add: typedArraySet_def)
  show ?case
    unfolding mergeLoop.simps set andThen_Inr
    using Cons.IH [of "pre @ c"] by simp
qed

lemma mergeChunks_concat: "mergeChunks chunks = Inr (concat chunks)"
  using mergeLoop_fills [of chunks "[]" 0] by (simp add: mergeChunks_def totalLoop_eq)

lemma AudioProcessor_mergeChunks_concat: "AudioProcessor_mergeChunks chunks = Inr (concat chunks)"
  using mergeLoop_fills [of chunks "[]" 0] by (simp add: AudioProcessor_mergeChunks_def foldl_lengths_eq)

subsection \<open>WAV encoder\<close>

lemma written_update:
  assumes "i = length pre" "i < byteLength"
  shows "(written pre byteLength)[i := b] = written (pre @ [b]) byteLength"
proof -
  from assms obtain m where m: "byteLength - length pre = Suc m" "byteLength - Suc (length pre) = m"
    by (metis Suc_diff_Suc)
  then show ?thesis
    using assms by (simp add: written_def list_update_append)
qed

lemma length_written: "length pre \<le> byteLength \<Longrightarrow> length (written pre byteLength) = byteLength"
  by (simp add: written_def)

lemma written_full: "length pre = byteLength \<Longrightarrow> written pre byteLength = pre"
  by (simp add: written_def)

lemma length_bytes16 [simp]: "length (bytes16 v) = 2"
  by (simp add: bytes16_def)

lemma length_bytes32 [simp]: "length (bytes32 v) = 4"
  by (simp add: bytes32_def)

lemma length_sample_bytes [simp]:
  "length (concat (map (\<lambda>s. bytes16 (f s)) samples)) = 2 * length samples"
  by (induction samples) simp_all

lemma length_wavHeader [simp]: "length (wavHeader n) = 44"
  by (simp add: wavHeader_def)

lemma setUint8_written:
  assumes "off = length pre" "off + 1 \<le> byteLength"
  shows "setUint8 (written pre byteLength) off v = Inr (written (pre @ [word_of_int v]) byteLength)"
  using assms by (simp add: setUint8_def length_written written_update)

lemma setUint16_written:
  assumes "off = length pre" "off + 2 \<le> byteLength"
  shows "setUint16 (written pre byteLength) off v True = Inr (written (pre @ bytes16 v) byteLength)"
  using assms by (simp add: setUint16_def length_written written_update bytes16_def)

lemma setInt16_written:
  assumes "off = length pre" "off + 2 \<le> byteLength"
  shows "setInt16 (written pre byteLength) off v True = Inr (written (pre @ bytes16 v) byteLength)"
  using assms by (simp add: setInt16_def length_written written_update bytes16_def)

lemma setUint32_written:
  assumes "off = length pre" "off + 4 \<le> byteLength"
  shows "setUint32 (written pre byteLength) off v True = Inr (written (pre @ bytes32 v) byteLength)"
  using assms by (simp add: setUint32_def length_written written_update bytes32_def)

lemma writeString_written:
  assumes "off = length pre" "off + length str \<le> byteLength"
  shows "writeString (written pre byteLength) off str
     = Inr (written (pre @ map (\<lambda>c. word_of_int (of_char c)) str) byteLength)"
  using assms
proof (induction str arbitrary: pre off)
  case Nil
  then show ?case by simp
next
  case (Cons c str)
  have "writeString (written (pre @ [word_of_int (of_char c)]) byteLength) (off + 1) str
      = Inr (written ((pre @ [word_of_int (of_char c)]) @ map (\<lambda>c. word_of_int (of_char c)) str) byteLength)"
    using Cons.prems by (intro Cons.IH) simp_all
  then show ?case using Cons.prems by (simp add: setUint8_written)
qed

lemma writeSamples_written:
  assumes "off = length pre" "off + 2 * length samples \<le> byteLength"
  shows "writeSamples (written pre byteLength) off samples
     = Inr (written (pre @ concat (map (\<lambda>s. bytes16 (sint s)) samples)) byteLength)"
  using assms
proof (induction samples arbitrary: pre off)
  case Nil
  then show ?case by simp
next
  case (Cons s samples)
  have "writeSamples (written (pre @ bytes16 (sint s)) byteLength) (off + 2) samples
      = Inr (written ((pre @ bytes16 (sint s)) @ concat (map (\<lambda>s. bytes16 (sint s)) samples)) byteLength)"
    using Cons.prems by (intro Cons.IH) simp_all
  then show ?case using Cons.prems by (simp add: setInt16_written)
qed

lemma buildWav_eq:
  "buildWav samples = Inr (wavHeader (length samples) @ concat (map (\<lambda>s. bytes16 (sint s)) samples))"
proof -
  have start: "replicate (44 + length samples * 2) 0 = written [] (44 + length samples * 2)"
    by (simp add: written_def)
  have full: "written (wavHeader (length samples) @ concat (map (\<lambda>s. bytes16 (sint s)) samples))
        (44 + length samples * 2)
      = wavHeader (length samples) @ concat (map (\<lambda>s. bytes16 (sint s)) samples)"
    by (rule written_full) simp
  have "buildWav samples
      = Inr (written (wavHeader (length samples) @ concat (map (\<lambda>s. bytes16 (sint s)) samples))
               (44 + length samples * 2))"
    unfolding buildWav_def Let_def start
    by (simp add: writeString_written setUint32_written setUint16_written writeSamples_written
          wavHeader_def del: writeString.simps)
  with full show ?thesis by simp
qed

lemma encode_eq_buildWav: "encode samples = buildWav samples"
  by (simp add: encode_def buildWav_def Let_def CHANNELS_def BIT_DEPTH_def TARGET_SAMPLE_RATE_def)

subsection \<open>Reading the container back\<close>

lemma bytes32_nat:
  "bytes32 (int n) = [of_nat n, of_nat (n div 256), of_nat (n div 65536), of_nat (n div 16777216)]"
proof -
  have "int n div 256 = int (n div 256)" "int n div 65536 = int (n div 65536)"
    "int n div 16777216 = int (n div 16777216)"
    by simp_all
  then show ?thesis
    unfolding bytes32_def by (simp only: of_int_of_nat_eq)
qed

lemma leValue_bytes32: "leValue (bytes32 (int n)) = n mod 2 ^ 32"
proof -
  have "leValue (bytes32 (int n))
      = n mod 256 + 256 * (n div 256 mod 256 + 256 * (n div 65536 mod 256 + 256 * (n div 16777216 mod 256)))"
    unfolding bytes32_nat leValue_def by (simp add: unat_of_nat)
  also have "\<dots> = n mod 2 ^ 32"
  proof -
    have a: "n div 65536 = n div 256 div 256" "n div 16777216 = n div 256 div 256 div 256"
      by (simp_all add: div_mult2_eq [symmetric])
    have "n mod 2 ^ 32 = n mod (256 * (256 * (256 * 256)))" by simp
    also have "\<dots> = n mod 256 + 256 * (n div 256 mod 256 + 256 * (n div 256 div 256 mod 256
        + 256 * (n div 256 div 256 div 256 mod 256)))"
      by (simp only: mod_mult2_eq) simp
    finally show ?thesis by (simp only: a)
  qed
  finally show ?thesis .
qed

lemma leValue_bytes16: "leValue (bytes16 (int n)) = n mod 2 ^ 16"
proof -
  have "int n div 256 = int (n div 256)" by simp
  then have "bytes16 (int n) = [of_nat n, of_nat (n div 256)]"
    unfolding bytes16_def by (simp only: of_int_of_nat_eq)
  then have "leValue (bytes16 (int n)) = n mod 256 + 256 * (n div 256 mod 256)"
    by (simp add: leValue_def unat_of_nat)
  also have "\<dots> = n mod (256 * 256)"
    by (simp only: mod_mult2_eq)
  finally show ?thesis by simp
qed

lemma unat_byte_of_int: "unat (word_of_int k :: 8 word) = nat (k mod 256)"
proof -
  have u: "uint (word_of_int k :: 8 word) = k mod 256"
    by (simp add: uint_word_of_int)
  show ?thesis unfolding unat_eq_nat_uint u ..
qed

lemma le16_roundtrip:
  "(word_of_nat (unat (word_of_int k :: 8 word) + 256 * unat (word_of_int (k div 256) :: 8 word)) :: 16 word)
     = word_of_int k"
proof -
  let ?n = "nat (k mod 256) + 256 * nat (k div 256 mod 256)"
  have "int ?n = k mod 256 + 256 * (k div 256 mod 256)"
    by simp
  also have "\<dots> = k mod (256 * 256)"
    using zmod_zmult2_eq [where a = k and b = 256 and c = 256] by simp
  finally have n: "int ?n = k mod 2 ^ 16"
    by simp
  have "(word_of_nat ?n :: 16 word) = word_of_int (int ?n)"
    by (simp only: of_int_of_nat_eq)
  also have "\<dots> = word_of_int (k mod 2 ^ 16)"
    by (simp only: n)
  also have "\<dots> = word_of_int k"
    by (simp add: word_of_int_eq_iff take_bit_eq_mod)
  finally show ?thesis by (simp only: unat_byte_of_int)
qed

lemma decodeSamples_Cons: "decodeSamples (bytes16 (sint s) @ bytes) = s # decodeSamples bytes"
proof -
  have "decodeSamples (bytes16 (sint s) @ bytes) = word_of_int (sint s) # decodeSamples bytes"
    unfolding bytes16_def by (simp only: append_Cons append_Nil decodeSamples.simps le16_roundtrip)
  then show ?thesis by simp
qed

lemma decodeSamples_bytes: "decodeSamples (concat (map (\<lambda>s. bytes16 (sint s)) samples)) = samples"
  by (induction samples) (simp_all add: decodeSamples_Cons)

lemma leValue_const32: "leValue (bytes32 16) = 16" "leValue (bytes32 16000) = 16000" "leValue (bytes32 32000) = 32000"
  using leValue_bytes32 [of 16] leValue_bytes32 [of 16000] leValue_bytes32 [of 32000] by simp_all

lemma leValue_const16: "leValue (bytes16 1) = 1" "leValue (bytes16 2) = 2" "leValue (bytes16 16) = 16"
  using leValue_bytes16 [of 1] leValue_bytes16 [of 2] leValue_bytes16 [of 16] by simp_all

lemma header_fields:
  "field (wavHeader n @ data) 0 4 = ascii ''RIFF''"
  "field (wavHeader n @ data) 4 4 = bytes32 (int (36 + 2 * n))"
  "field (wavHeader n @ data) 8 4 = ascii ''WAVE''"
  "field (wavHeader n @ data) 12 4 = ascii ''fmt ''"
  "field (wavHeader n @ data) 16 4 = bytes32 16"
  "field (wavHeader n @ data) 20 2 = bytes16 1"
  "field (wavHeader n @ data) 22 2 = bytes16 1"
  "field (wavHeader n @ data) 24 4 = bytes32 16000"
  "field (wavHeader n @ data) 28 4 = bytes32 32000"
  "field (wavHeader n @ data) 32 2 = bytes16 2"
  "field (wavHeader n @ data) 34 2 = bytes16 16"
  "field (wavHeader n @ data) 36 4 = ascii ''data''"
  "field (wavHeader n @ data) 40 4 = bytes32 (int (2 * n))"
  by (simp_all add: field_def wavHeader_def ascii_def mult.commute)

text \<open>
  C5. For a sample buffer whose container fits the 32-bit size fields, \<open>encode\<close> (and
  \<open>buildWav\<close>, which is the same function) returns, without an exception, a buffer of
  \<open>44 + 2 * sampleCount\<close> bytes whose header reads, all integers little-endian: \<open>RIFF\<close>
  at 0, the chunk size \<open>36 + N\<close> at 4, \<open>WAVE\<close> at 8, \<open>fmt \<close> at 12, 16 at 16, the
  format 1 at 20, 1 channel at 22, the rate 16000 at 24, the byte rate 32000 at 28, the
  block alignment 2 at 32, 16 bits at 34, \<open>data\<close> at 36 and the data size
  \<open>N = 2 * sampleCount\<close> at 40. The empty buffer gives 44 bytes and a data size of 0.
\<close>

theorem wav_header_layout:
  assumes "36 + 2 * length samples < 2 ^ 32"
  shows "\<exists>buffer. encode samples = Inr buffer \<and> buildWav samples = Inr buffer \<and>
     length buffer = 44 + 2 * length samples \<and>
     field buffer 0 4 = ascii ''RIFF'' \<and>
     leValue (field buffer 4 4) = 36 + 2 * length samples \<and>
     field buffer 8 4 = ascii ''WAVE'' \<and>
     field buffer 12 4 = ascii ''fmt '' \<and>
     leValue (field buffer 16 4) = 16 \<and>
     leValue (field buffer 20 2) = 1 \<and>
     leValue (field buffer 22 2) = 1 \<and>
     leValue (field buffer 24 4) = 16000 \<and>
     leValue (field buffer 28 4) = 32000 \<and>
     leValue (field buffer 32 2) = 2 \<and>
     leValue (field buffer 34 2) = 16 \<and>
     field buffer 36 4 = ascii ''data'' \<and>
     leValue (field buffer 40 4) = 2 * length samples"
proof -
  let ?buffer = "wavHeader (length samples) @ concat (map (\<lambda>s. bytes16 (sint s)) samples)"
  from assms have fits: "(36 + 2 * length samples) mod 2 ^ 32 = 36 + 2 * length samples"
    "(2 * length samples) mod 2 ^ 32 = 2 * length samples"
    by simp_all
  have "encode samples = Inr ?buffer" "buildWav samples = Inr ?buffer"
    by (simp_all add: encode_eq_buildWav buildWav_eq)
  moreover have "length ?buffer = 44 + 2 * length samples"
    by simp
  moreover have "leValue (field ?buffer 4 4) = 36 + 2 * length samples"
    "leValue (field ?buffer 40 4) = 2 * length samples"
    by (simp_all only: header_fields leValue_bytes32 fits)
  moreover have "leValue (field ?buffer 16 4) = 16" "leValue (field ?buffer 20 2) = 1"
    "leValue (field ?buffer 22 2) = 1" "leValue (field ?buffer 24 4) = 16000"
    "leValue (field ?buffer 28 4) = 32000" "leValue (field ?buffer 32 2) = 2"
    "leValue (field ?buffer 34 2) = 16"
    by (simp_all only: header_fields leValue_const32 leValue_const16)
  ultimately show ?thesis
    by (intro exI [of _ ?buffer]) (simp only: header_fields simp_thms)
qed

theorem wav_header_layout_witness:
  "(36::nat) + 2 * length ([] :: int16array) < 2 ^ 32 \<and>
   (\<exists>buffer. encode [] = Inr buffer \<and> length buffer = 44 \<and> leValue (field buffer 40 4) = 0
      \<and> leValue (field buffer 4 4) = 36)"
  using wav_header_layout [of "[]"] by auto

lemma stop_eq:
  "stopRecording chunks = buildWav (concat chunks)"
  "RecordingController_stop chunks = buildWav (concat chunks)"
  "workerFinish w = buildWav (concat (recordedChunks w))"
  by (simp_all add: stopRecording_def RecordingController_stop_def workerFinish_def
      mergeChunks_concat AudioProcessor_mergeChunks_concat encode_eq_buildWav)

lemma decode_buildWav:
  assumes "2 * length samples < 2 ^ 32"
  shows "decode (wavHeader (length samples) @ concat (map (\<lambda>s. bytes16 (sint s)) samples))
     = \<lparr>wavSampleRate = 16000, wavChannels = 1, wavBitDepth = 16,
        wavDataSize = 2 * length samples, wavSamples = samples\<rparr>"
proof -
  from assms have fits: "(2 * length samples) mod 2 ^ 32 = 2 * length samples"
    by simp
  let ?buffer = "wavHeader (length samples) @ concat (map (\<lambda>s. bytes16 (sint s)) samples)"
  have "leValue (field ?buffer 24 4) = 16000" "leValue (field ?buffer 22 2) = 1"
    "leValue (field ?buffer 34 2) = 16"
    by (simp_all only: header_fields leValue_const32 leValue_const16)
  moreover have "leValue (field ?buffer 40 4) = 2 * length samples"
    by (simp only: header_fields leValue_bytes32 fits)
  moreover have "decodeSamples (drop 44 ?buffer) = samples"
    by (simp add: decodeSamples_bytes)
  ultimately show ?thesis
    unfolding decode_def by (simp only:)
qed

text \<open>
  C6. Round trip: for a list of PCM16 blocks whose data fits the 32-bit size field,
  merging the blocks and encoding the result succeeds (in the stop handlers of the three
  pipelines, the worker holding the blocks as its chunks), and reading the container back
  gives the rate 16000, 1 channel, 16 bits, a data size of twice the number of samples,
  and the samples of the blocks, in the order of the blocks, bit for bit.
\<close>

theorem wav_roundtrip:
  assumes "2 * length (concat blocks) < 2 ^ 32"
  shows "\<exists>buffer. stopRecording blocks = Inr buffer \<and> RecordingController_stop blocks = Inr buffer \<and>
     workerFinish (w\<lparr>recordedChunks := blocks\<rparr>) = Inr buffer \<and>
     decode buffer = \<lparr>wavSampleRate = 16000, wavChannels = 1, wavBitDepth = 16,
        wavDataSize = 2 * length (concat blocks), wavSamples = concat blocks\<rparr>"
  using decode_buildWav [OF assms] by (simp add: stop_eq buildWav_eq)

theorem wav_roundtrip_witness:
  "2 * length (concat [[1, - 2], [3 :: 16 word]]) < (2 :: nat) ^ 32 \<and>
   (\<exists>buffer. stopRecording [[1, - 2], [3]] = Inr buffer \<and>
      decode buffer = \<lparr>wavSampleRate = 16000, wavChannels = 1, wavBitDepth = 16,
        wavDataSize = 6, wavSamples = [1, - 2, 3]\<rparr>)"
  using wav_roundtrip [of "[[1, - 2], [3]]"] by auto

lemma downsampleTo16k_empty: "downsampleTo16k [] rate = Inr []"
  by (simp add: downsampleTo16k_def allocLength_def Let_def)

lemma downsample_empty: "downsample [] sourceRate targetRate = Inr []"
  by (simp add: downsample_def allocLength_def Let_def)

text \<open>
  C9. Finalizing an empty timeline is not an error: merging no chunk gives the empty
  buffer, encoding it gives the 44 bytes of a header whose data size is 0, and the stop
  handlers return that container. On an empty input the resamplers return the empty
  output whatever the rates are, and the quantizer and the encoder return without an
  exception.
\<close>

theorem empty_timeline_finalize:
  "mergeChunks [] = Inr [] \<and> AudioProcessor_mergeChunks [] = Inr [] \<and>
   buildWav [] = Inr (wavHeader 0) \<and> encode [] = Inr (wavHeader 0) \<and>
   stopRecording [] = Inr (wavHeader 0) \<and> RecordingController_stop [] = Inr (wavHeader 0) \<and>
   workerFinish (workerInit rate) = Inr (wavHeader 0) \<and>
   length (wavHeader 0) = 44 \<and>
   decode (wavHeader 0) = \<lparr>wavSampleRate = 16000, wavChannels = 1, wavBitDepth = 16,
        wavDataSize = 0, wavSamples = []\<rparr> \<and>
   downsampleTo16k [] rate = Inr [] \<and> AudioProcessor_downsample [] rate = Inr [] \<and>
   downsample [] sourceRate targetRate = Inr [] \<and> float32ToInt16 [] = []"
proof -
  have "decode (wavHeader 0) = \<lparr>wavSampleRate = 16000, wavChannels = 1, wavBitDepth = 16,
        wavDataSize = 0, wavSamples = []\<rparr>"
    using decode_buildWav [of "[]"] by simp
  then show ?thesis
    by (simp add: mergeChunks_concat AudioProcessor_mergeChunks_concat stop_eq buildWav_eq
        encode_eq_buildWav downsampleTo16k_empty AudioProcessor_downsample_eq downsample_empty
        float32ToInt16_def workerInit_def Let_def)
qed

subsection \<open>Capture pipelines\<close>

lemma downsampleTo16k_pcm16Of: "0 < rate \<Longrightarrow> downsampleTo16k block rate = Inr (pcm16Of rate block)"
  by (simp add: pcm16Of_def downsampleTo16k_pos)

lemma deliver_onaudioprocess:
  assumes "0 < rate"
  shows "deliver (onaudioprocess flag rate) chunks block =
     (if flag \<and> chunks = [] \<and> (isAbsolutelySilent (pcm16Of rate block) \<or> isBelowThreshold (pcm16Of rate block))
      then chunks else chunks @ [pcm16Of rate block])"
  using assms
  by (simp add: deliver_def onaudioprocess_def AudioProcessor_downsample_eq downsampleTo16k_pcm16Of)

lemma recorder_accepting:
  assumes "0 < rate" "\<not> flag \<or> chunks \<noteq> []"
  shows "foldl (deliver (onaudioprocess flag rate)) chunks blocks = chunks @ map (pcm16Of rate) blocks"
  using assms(2)
proof (induction blocks arbitrary: chunks)
  case Nil
  then show ?case by simp
next
  case (Cons b blocks)
  have step: "deliver (onaudioprocess flag rate) chunks b = chunks @ [pcm16Of rate b]"
    using Cons.prems assms(1) by (auto simp: deliver_onaudioprocess)
  have "foldl (deliver (onaudioprocess flag rate)) (chunks @ [pcm16Of rate b]) blocks
      = (chunks @ [pcm16Of rate b]) @ map (pcm16Of rate) blocks"
    by (rule Cons.IH) simp
  with step show ?case by simp
qed

lemma recorder_trimming:
  assumes "0 < rate"
  shows "foldl (deliver (onaudioprocess True rate)) [] blocks =
     map (pcm16Of rate)
       (dropWhile (\<lambda>b. isAbsolutelySilent (pcm16Of rate b) \<or> isBelowThreshold (pcm16Of rate b)) blocks)"
proof (induction blocks)
  case Nil
  then show ?case by simp
next
  case (Cons b blocks)
  show ?case
  proof (cases "isAbsolutelySilent (pcm16Of rate b) \<or> isBelowThreshold (pcm16Of rate b)")
    case True
    then show ?thesis using Cons.IH assms by (simp add: deliver_onaudioprocess)
  next
    case False
    then have "deliver (onaudioprocess True rate) [] b = [pcm16Of rate b]"
      using assms by (simp add: deliver_onaudioprocess)
    moreover have "foldl (deliver (onaudioprocess True rate)) [pcm16Of rate b] blocks
        = [pcm16Of rate b] @ map (pcm16Of rate) blocks"
      using assms by (intro recorder_accepting) simp_all
    ultimately show ?thesis using False by simp
  qed
qed

lemma deliver_onmessage:
  assumes "0 < rate"
  shows "deliver (onmessage flag rate) chunks block =
     (if flag \<and> chunks = [] \<and> isSilent (pcm16Of rate block) then chunks
      else if isSilentFrame (pcm16Of rate block) then chunks
      else chunks @ [pcm16Of rate block])"
  using assms by (simp add: deliver_def onmessage_def downsampleTo16k_pcm16Of)

lemma worklet_gating:
  assumes "0 < rate" "\<not> flag \<or> chunks \<noteq> []"
  shows "foldl (deliver (onmessage flag rate)) chunks blocks =
     chunks @ filter (\<lambda>p. \<not> isSilentFrame p) (map (pcm16Of rate) blocks)"
  using assms(2)
proof (induction blocks arbitrary: chunks)
  case Nil
  then show ?case by simp
next
  case (Cons b blocks)
  show ?case
  proof (cases "isSilentFrame (pcm16Of rate b)")
    case True
    then have "deliver (onmessage flag rate) chunks b = chunks"
      using assms(1) by (simp add: deliver_onmessage)
    then show ?thesis using True Cons.IH [OF Cons.prems] by simp
  next
    case False
    then have step: "deliver (onmessage flag rate) chunks b = chunks @ [pcm16Of rate b]"
      using assms(1) Cons.prems by (auto simp: deliver_onmessage)
    have "foldl (deliver (onmessage flag rate)) (chunks @ [pcm16Of rate b]) blocks
        = (chunks @ [pcm16Of rate b]) @ filter (\<lambda>p. \<not> isSilentFrame p) (map (pcm16Of rate) blocks)"
      by (rule Cons.IH) simp
    with step False show ?thesis by simp
  qed
qed

lemma worklet_leading:
  assumes "0 < rate"
  shows "foldl (deliver (onmessage True rate)) [] blocks =
     filter (\<lambda>p. \<not> isSilentFrame p)
       (dropWhile (\<lambda>p. isSilent p \<or> isSilentFrame p) (map (pcm16Of rate) blocks))"
proof (induction blocks)
  case Nil
  then show ?case by simp
next
  case (Cons b blocks)
  show ?case
  proof (cases "isSilent (pcm16Of rate b) \<or> isSilentFrame (pcm16Of rate b)")
    case True
    then have "deliver (onmessage True rate) [] b = []"
      using assms by (auto simp: deliver_onmessage)
    then show ?thesis using True Cons.IH by simp
  next
    case False
    then have "deliver (onmessage True rate) [] b = [pcm16Of rate b]"
      using assms by (simp add: deliver_onmessage)
    moreover have "foldl (deliver (onmessage True rate)) [pcm16Of rate b] blocks
        = [pcm16Of rate b] @ filter (\<lambda>p. \<not> isSilentFrame p) (map (pcm16Of rate) blocks)"
      using assms by (intro worklet_gating) simp_all
    ultimately show ?thesis using False by simp
  qed
qed

lemma workerProcess_chunk:
  assumes "0 < sourceSampleRate w"
  shows "workerProcess w block = Inr (w\<lparr>recordedChunks := recordedChunks w @ [workerChunk w block]\<rparr>)"
  using assms
  by (simp add: workerChunk_def workerProcess_def downsample_pos TARGET_SAMPLE_RATE_def)

lemma workerChunk_recordedChunks:
  assumes "0 < sourceSampleRate w"
  shows "workerChunk (w\<lparr>recordedChunks := chunks\<rparr>) block = workerChunk w block"
  using assms
  by (simp add: workerChunk_def workerProcess_def downsample_pos TARGET_SAMPLE_RATE_def)

lemma sourceSampleRate_workerInit: "0 < rate \<Longrightarrow> sourceSampleRate (workerInit rate) = rate"
  by (simp add: workerInit_def)

lemma deliver_workerProcess:
  assumes "0 < rate"
  shows "deliver workerProcess ((workerInit rate)\<lparr>recordedChunks := chunks\<rparr>) block
     = (workerInit rate)\<lparr>recordedChunks := chunks @ [workerChunk (workerInit rate) block]\<rparr>"
  using assms
  by (simp add: deliver_def workerProcess_chunk workerChunk_recordedChunks sourceSampleRate_workerInit)

lemma offloaded_accepting:
  assumes "0 < rate" "\<not> flag \<or> h"
  shows "foldl (offloadedStep flag) (h, (workerInit rate)\<lparr>recordedChunks := chunks\<rparr>) blocks
     = (h, (workerInit rate)\<lparr>recordedChunks := chunks @ map (workerChunk (workerInit rate)) blocks\<rparr>)"
proof (induction blocks arbitrary: chunks)
  case Nil
  then show ?case by simp
next
  case (Cons b blocks)
  have "offloadedStep flag (h, (workerInit rate)\<lparr>recordedChunks := chunks\<rparr>) b
      = (h, (workerInit rate)\<lparr>recordedChunks := chunks @ [workerChunk (workerInit rate) b]\<rparr>)"
    using assms by (auto simp: offloadedStep_def onaudioprocessOffloaded_def deliver_workerProcess)
  then show ?case using Cons.IH [of "chunks @ [workerChunk (workerInit rate) b]"] by simp
qed

lemma offloaded_trimming:
  assumes "0 < rate"
  shows "foldl (offloadedStep True) (False, (workerInit rate)\<lparr>recordedChunks := []\<rparr>) blocks
     = (dropWhile (\<lambda>b. isAbsolutelySilentFloat32 b \<or> isBelowThresholdFloat32 b) blocks \<noteq> [],
        (workerInit rate)\<lparr>recordedChunks := map (workerChunk (workerInit rate))
          (dropWhile (\<lambda>b. isAbsolutelySilentFloat32 b \<or> isBelowThresholdFloat32 b) blocks)\<rparr>)"
proof (induction blocks)
  case Nil
  then show ?case by simp
next
  case (Cons b blocks)
  show ?case
  proof (cases "isAbsolutelySilentFloat32 b \<or> isBelowThresholdFloat32 b")
    case True
    then have "offloadedStep True (False, (workerInit rate)\<lparr>recordedChunks := []\<rparr>) b
        = (False, (workerInit rate)\<lparr>recordedChunks := []\<rparr>)"
      by (auto simp: offloadedStep_def onaudioprocessOffloaded_def)
    then show ?thesis using True Cons.IH by simp
  next
    case False
    then have "offloadedStep True (False, (workerInit rate)\<lparr>recordedChunks := []\<rparr>) b
        = (True, (workerInit rate)\<lparr>recordedChunks := [] @ [workerChunk (workerInit rate) b]\<rparr>)"
      using assms by (simp add: offloadedStep_def onaudioprocessOffloaded_def deliver_workerProcess)
    moreover have "foldl (offloadedStep True) (True, (workerInit rate)\<lparr>recordedChunks := [workerChunk (workerInit rate) b]\<rparr>) blocks
        = (True, (workerInit rate)\<lparr>recordedChunks := [workerChunk (workerInit rate) b] @ map (workerChunk (workerInit rate)) blocks\<rparr>)"
      using assms by (intro offloaded_accepting) simp_all
    ultimately show ?thesis using False by simp
  qed
qed

lemma workerInit_fresh: "(workerInit rate)\<lparr>recordedChunks := []\<rparr> = workerInit rate"
  by (simp add: workerInit_def Let_def)

lemma offloadedSession_trimming:
  assumes "0 < rate"
  shows "offloadedSession True rate blocks = map (workerChunk (workerInit rate))
          (dropWhile (\<lambda>b. isAbsolutelySilentFloat32 b \<or> isBelowThresholdFloat32 b) blocks)"
  using offloaded_trimming [OF assms, of blocks]
  by (simp add: offloadedSession_def workerInit_fresh)

lemma offloadedSession_plain:
  assumes "0 < rate"
  shows "offloadedSession False rate blocks = map (workerChunk (workerInit rate)) blocks"
  using offloaded_accepting [of rate False False "[]" blocks] assms
  by (simp add: offloadedSession_def workerInit_fresh)


lemma isBelowThreshold_iff:
  "isBelowThreshold int16 \<longleftrightarrow>
     int16 \<noteq> [] \<and> (\<Sum>v\<leftarrow>int16. (sint v)\<^sup>2) < 625 * int (length int16)"
  using isSilentFrame_iff [of int16] by (simp add: isSilentFrame_rms isBelowThreshold_rms)

lemma isBelowThresholdFloat32_iff:
  "isBelowThresholdFloat32 samples \<longleftrightarrow>
     samples \<noteq> [] \<and> (\<Sum>x\<leftarrow>samples. x\<^sup>2) * 1000000 < real (length samples)"
proof (cases "samples = []")
  case True
  then show ?thesis by (simp add: isBelowThresholdFloat32_rms)
next
  case False
  then have n: "0 < real (length samples)" by simp
  have s: "sqrt ((1 / 1000)\<^sup>2) = (1 / 1000 :: real)"
    by simp
  have "sqrt x < sqrt ((1 / 1000)\<^sup>2) \<longleftrightarrow> x < (1 / 1000)\<^sup>2" for x :: real
    by (rule real_sqrt_less_iff)
  then have "sqrt x < 1 / 1000 \<longleftrightarrow> x < (1 / 1000)\<^sup>2" for x :: real
    by (simp only: s)
  then have "isBelowThresholdFloat32 samples \<longleftrightarrow>
      (\<Sum>x\<leftarrow>samples. x\<^sup>2) / real (length samples) < (1 / 1000)\<^sup>2"
    using False by (simp only: isBelowThresholdFloat32_rms rms_def simp_thms)
  also have "\<dots> \<longleftrightarrow> (\<Sum>x\<leftarrow>samples. x\<^sup>2) * 1000000 < real (length samples)"
    using n by (simp add: power2_eq_square field_simps)
  finally show ?thesis using False by simp
qed

lemma pcm16Of_zero: "pcm16Of 48000 [0, 0, 0] = [0]"
  by (simp add: pcm16Of_def downsampleTo16k_def allocLength_def interpolate_def js_get_def
      quantize_def toInt16_def trunc_def Let_def)

lemma pcm16Of_loud: "pcm16Of 48000 [1 / 2, 1 / 2, 1 / 2] = [16383]"
  by (simp add: pcm16Of_def downsampleTo16k_def allocLength_def interpolate_def js_get_def
      quantize_def toInt16_def trunc_def Let_def)

lemma workerChunk_zero: "workerChunk (workerInit 48000) [0, 0, 0] = [0]"
  by (simp add: workerChunk_def workerProcess_def workerInit_def downsample_def allocLength_def
      interpolate_def js_get_def float32ToInt16_def toInt16_def trunc_def TARGET_SAMPLE_RATE_def Let_def)

lemma workerChunk_loud: "workerChunk (workerInit 48000) [1 / 2, 1 / 2, 1 / 2] = [16383]"
  by (simp add: workerChunk_def workerProcess_def workerInit_def downsample_def allocLength_def
      interpolate_def js_get_def float32ToInt16_def toInt16_def trunc_def TARGET_SAMPLE_RATE_def Let_def)

lemma silent_examples:
  "isSilent [0]" "isSilentFrame [0]" "\<not> isSilent [16383]" "\<not> isSilentFrame [16383]"
  "isAbsolutelySilent [0]" "\<not> isAbsolutelySilent [16383]" "\<not> isBelowThreshold [16383]"
  "isAbsolutelySilentFloat32 [0, 0, 0]" "\<not> isAbsolutelySilentFloat32 [1 / 2, 1 / 2, 1 / 2]"
  "\<not> isBelowThresholdFloat32 [1 / 2, 1 / 2, 1 / 2]"
  by (simp_all add: isSilentFrame_iff isBelowThreshold_iff isAbsolutelySilent_def
      isBelowThresholdFloat32_iff power2_eq_square)

text \<open>
  C1, as stated: with the flag on, every pipeline keeps each block that follows the first
  accepted one, so that the blocks \<open>[zero, zero, loud, zero]\<close> give the timeline
  \<open>[loud, zero]\<close>. The worklet pipeline of \<open>main.js\<close> does not: its handler returns on
  every block whose RMS is below 25, whatever the flag and the chunks accepted so far. At
  48000 Hz the zero block \<open>[0, 0, 0]\<close> resamples to \<open>[0]\<close> and the loud block
  \<open>[1/2, 1/2, 1/2]\<close> to \<open>[16383]\<close>; the timeline is \<open>[loud]\<close> alone.
\<close>

theorem worklet_gating_counterexample:
  "downsampleTo16k [0, 0, 0] 48000 = Inr [0] \<and>
   downsampleTo16k [1 / 2, 1 / 2, 1 / 2] 48000 = Inr [16383] \<and>
   workletSession True 48000 [[0, 0, 0], [0, 0, 0], [1 / 2, 1 / 2, 1 / 2], [0, 0, 0]] = [[16383]] \<and>
   workletSession True 48000 [[0, 0, 0], [0, 0, 0], [1 / 2, 1 / 2, 1 / 2], [0, 0, 0]] \<noteq> [[16383], [0]]"
proof -
  have "workletSession True 48000 [[0, 0, 0], [0, 0, 0], [1 / 2, 1 / 2, 1 / 2], [0, 0, 0]] = [[16383]]"
    by (simp add: workletSession_def deliver_onmessage pcm16Of_zero pcm16Of_loud silent_examples)
  moreover have "downsampleTo16k [0, 0, 0] 48000 = Inr [0]"
    "downsampleTo16k [1 / 2, 1 / 2, 1 / 2] 48000 = Inr [16383]"
    using pcm16Of_zero pcm16Of_loud by (simp_all add: downsampleTo16k_pcm16Of)
  ultimately show ?thesis by simp
qed

text \<open>
  C1, amended. With the flag on and a positive sample rate, the two \<open>AudioRecorder\<close>
  pipelines (script processor, and offloaded to the audio worker) trim the leading
  silence once: the blocks classified silent are dropped as long as no block has been
  accepted, and from the first accepted block on every block is appended, silent or not;
  the timeline is the chunks of the blocks that remain when the leading run of silent
  blocks is removed, so \<open>[zero, zero, loud, zero]\<close> gives \<open>[loud, zero]\<close>. The worklet
  pipeline of \<open>main.js\<close> trims the leading blocks that either test finds silent and then
  keeps dropping every block whose RMS is below 25: the same input gives \<open>[loud]\<close>.
\<close>

theorem leading_silence_trim:
  assumes "0 < rate"
  shows "recorderSession True rate blocks =
           map (pcm16Of rate)
             (dropWhile (\<lambda>b. isAbsolutelySilent (pcm16Of rate b) \<or> isBelowThreshold (pcm16Of rate b)) blocks) \<and>
         offloadedSession True rate blocks =
           map (workerChunk (workerInit rate))
             (dropWhile (\<lambda>b. isAbsolutelySilentFloat32 b \<or> isBelowThresholdFloat32 b) blocks) \<and>
         workletSession True rate blocks =
           filter (\<lambda>p. \<not> isSilentFrame p)
             (dropWhile (\<lambda>p. isSilent p \<or> isSilentFrame p) (map (pcm16Of rate) blocks))"
  using assms
  by (simp add: recorderSession_def recorder_trimming offloadedSession_trimming
      workletSession_def worklet_leading)

theorem leading_silence_trim_witness:
  "(0 :: real) < 48000 \<and>
   recorderSession True 48000 [[0, 0, 0], [0, 0, 0], [1 / 2, 1 / 2, 1 / 2], [0, 0, 0]] = [[16383], [0]] \<and>
   offloadedSession True 48000 [[0, 0, 0], [0, 0, 0], [1 / 2, 1 / 2, 1 / 2], [0, 0, 0]] = [[16383], [0]] \<and>
   workletSession True 48000 [[0, 0, 0], [0, 0, 0], [1 / 2, 1 / 2, 1 / 2], [0, 0, 0]] = [[16383]]"
  using leading_silence_trim [of 48000 "[[0, 0, 0], [0, 0, 0], [1 / 2, 1 / 2, 1 / 2], [0, 0, 0]]"]
  by (simp add: pcm16Of_zero pcm16Of_loud workerChunk_zero workerChunk_loud silent_examples)

text \<open>
  C2, as stated: with the flag off no block is filtered, and the four blocks
  \<open>[zero, zero, loud, zero]\<close> are all retained. The worklet pipeline of \<open>main.js\<close> still
  returns on every block whose RMS is below 25: it retains the loud block only.
\<close>

theorem worklet_ungated_counterexample:
  "workletSession False 48000 [[0, 0, 0], [0, 0, 0], [1 / 2, 1 / 2, 1 / 2], [0, 0, 0]] = [[16383]] \<and>
   workletSession False 48000 [[0, 0, 0], [0, 0, 0], [1 / 2, 1 / 2, 1 / 2], [0, 0, 0]]
     \<noteq> [[0], [0], [16383], [0]]"
proof -
  have "workletSession False 48000 [[0, 0, 0], [0, 0, 0], [1 / 2, 1 / 2, 1 / 2], [0, 0, 0]] = [[16383]]"
    by (simp add: workletSession_def deliver_onmessage pcm16Of_zero pcm16Of_loud silent_examples)
  then show ?thesis by simp
qed

text \<open>
  C2, amended. With the flag off and a positive sample rate, the two \<open>AudioRecorder\<close>
  pipelines apply no silence filter: every block is resampled, quantized and appended,
  and the timeline is the chunk of every block, in order; \<open>[zero, zero, loud, zero]\<close>
  keeps its four blocks. The worklet pipeline of \<open>main.js\<close> drops the blocks whose RMS is
  below 25 and appends the others.
\<close>

theorem no_trim_when_disabled:
  assumes "0 < rate"
  shows "recorderSession False rate blocks = map (pcm16Of rate) blocks \<and>
         offloadedSession False rate blocks = map (workerChunk (workerInit rate)) blocks \<and>
         workletSession False rate blocks = filter (\<lambda>p. \<not> isSilentFrame p) (map (pcm16Of rate) blocks)"
  using assms recorder_accepting [of rate False "[]" blocks] worklet_gating [of rate False "[]" blocks]
  by (simp add: recorderSession_def offloadedSession_plain workletSession_def)

theorem no_trim_when_disabled_witness:
  "(0 :: real) < 48000 \<and>
   recorderSession False 48000 [[0, 0, 0], [0, 0, 0], [1 / 2, 1 / 2, 1 / 2], [0, 0, 0]]
     = [[0], [0], [16383], [0]] \<and>
   offloadedSession False 48000 [[0, 0, 0], [0, 0, 0], [1 / 2, 1 / 2, 1 / 2], [0, 0, 0]]
     = [[0], [0], [16383], [0]] \<and>
   workletSession False 48000 [[0, 0, 0], [0, 0, 0], [1 / 2, 1 / 2, 1 / 2], [0, 0, 0]] = [[16383]]"
  using no_trim_when_disabled [of 48000 "[[0, 0, 0], [0, 0, 0], [1 / 2, 1 / 2, 1 / 2], [0, 0, 0]]"]
  by (simp add: pcm16Of_zero pcm16Of_loud workerChunk_zero workerChunk_loud silent_examples)

end
